theory Spec2Isabelle
  imports Main "HOL-Library.AList"
begin

section \<open>Storage schema (database.py)\<close>

text \<open>
  The three mapped classes of \<^verbatim>\<open>database.py\<close>, one record per table row. The column
  names \<^verbatim>\<open>id\<close>, \<^verbatim>\<open>name\<close> occur in several classes, so every field carries the initial of
  its class: \<open>a_\<close> for Activity, \<open>s_\<close> for Student, \<open>r_\<close> for Registration. Primary keys
  are the integers the database hands out, starting at 1, hence \<open>nat\<close>. The nullable
  columns \<^verbatim>\<open>name\<close> and \<^verbatim>\<open>grade_level\<close> of Student are options.

  The columns \<^verbatim>\<open>created_at\<close>, \<^verbatim>\<open>updated_at\<close> and \<^verbatim>\<open>registered_at\<close> take their value from the
  wall clock (\<^verbatim>\<open>datetime.utcnow\<close>) when a row is written; no handler reads them, and they
  are not part of the rows below.
\<close>

record Activity =
  a_id :: nat
  a_name :: string
  a_description :: string
  a_schedule :: string
  a_max_participants :: int

record Student =
  s_id :: nat
  s_email :: string
  s_name :: "string option"
  s_grade_level :: "string option"

record Registration =
  r_id :: nat
  r_student_id :: nat
  r_activity_id :: nat

text \<open>
  A table is the list of its rows in row order; an insert appends, and a query without
  \<^verbatim>\<open>ORDER BY\<close> scans the list from the front. The store is what is persisted.
\<close>

record store =
  activities :: "Activity list"
  students :: "Student list"
  registrations :: "Registration list"

definition empty_store :: store where
  "empty_store = \<lparr>activities = [], students = [], registrations = []\<rparr>"

section \<open>Sessions (SessionLocal, get_db)\<close>

text \<open>
  A session (\<^verbatim>\<open>SessionLocal()\<close>, with \<^verbatim>\<open>autocommit=False\<close>) works inside one transaction:
  \<open>working\<close> is the database as the transaction sees it, with every flushed change;
  \<open>committed\<close> is what is persisted. \<^verbatim>\<open>commit\<close> persists the working state, \<^verbatim>\<open>rollback\<close>
  drops it, and \<^verbatim>\<open>close\<close> without a commit releases the connection and with it the open
  transaction, so that only the committed state remains.
\<close>

record session =
  committed :: store
  working :: store

definition SessionLocal :: "store \<Rightarrow> session" where
  "SessionLocal s = \<lparr>committed = s, working = s\<rparr>"

definition commit :: "session \<Rightarrow> session" where
  "commit db = db\<lparr>committed := working db\<rparr>"

definition rollback :: "session \<Rightarrow> session" where
  "rollback db = db\<lparr>working := committed db\<rparr>"

definition close :: "session \<Rightarrow> store" where
  "close db = committed db"

text \<open>
  Everything the handlers and the libraries under them can raise. \<open>HTTPException\<close> carries
  the status code and the detail string; \<open>IntegrityError\<close> is the database refusing a row
  that breaks a \<^verbatim>\<open>unique=True\<close> column; \<open>AttributeError\<close> is \<^verbatim>\<open>reg.student.email\<close> on a
  registration whose student row does not exist (\<^verbatim>\<open>reg.student\<close> is then \<^verbatim>\<open>None\<close>);
  \<open>KeyError\<close> is a missing dictionary key.
\<close>

datatype error =
    HTTPException nat string
  | IntegrityError
  | AttributeError
  | KeyError

text \<open>
  \<^verbatim>\<open>get_db\<close> is the dependency every handler runs under: open a session, hand it to the
  handler, and close it in the \<^verbatim>\<open>finally\<close> block, whether the handler returned or raised.
  The result is the handler's outcome and the persisted store.
\<close>

definition get_db :: "(session \<Rightarrow> 'r \<times> session) \<Rightarrow> store \<Rightarrow> 'r \<times> store" where
  "get_db handler s = (case handler (SessionLocal s) of (r, db) \<Rightarrow> (r, close db))"

section \<open>Repository operations\<close>

text \<open>
  An integer primary key that is not given gets the largest key of the table plus one
  (1 in an empty table).
\<close>

definition next_id :: "nat list \<Rightarrow> nat" where
  "next_id ids = Suc (fold max ids 0)"

text \<open>
  \<^verbatim>\<open>db.add(Student(email=..., name=...)); db.flush()\<close>: the row goes into the transaction. The
  column \<^verbatim>\<open>email\<close> is \<^verbatim>\<open>unique=True\<close>, so a second row with the same email is refused.
\<close>

definition flush_student :: "string \<Rightarrow> string option \<Rightarrow> session \<Rightarrow> error + (Student \<times> session)" where
  "flush_student email name db =
     (let w = working db in
      if email \<in> set (map s_email (students w)) then Inl IntegrityError
      else
        let student = \<lparr>s_id = next_id (map s_id (students w)), s_email = email,
                        s_name = name, s_grade_level = None\<rparr>
        in Inr (student, db\<lparr>working := w\<lparr>students := students w @ [student]\<rparr>\<rparr>))"

text \<open>
  \<^verbatim>\<open>db.add(Activity(**activity_data)); db.flush()\<close>, with \<^verbatim>\<open>name\<close> unique.
\<close>

definition flush_activity :: "string \<times> string \<times> string \<times> int \<Rightarrow> session \<Rightarrow> error + (Activity \<times> session)" where
  "flush_activity activity_data db =
     (case activity_data of (name, description, schedule, max_participants) \<Rightarrow>
        let w = working db in
        if name \<in> set (map a_name (activities w)) then Inl IntegrityError
        else
          let activity = \<lparr>a_id = next_id (map a_id (activities w)), a_name = name,
                           a_description = description, a_schedule = schedule,
                           a_max_participants = max_participants\<rparr>
          in Inr (activity, db\<lparr>working := w\<lparr>activities := activities w @ [activity]\<rparr>\<rparr>))"

text \<open>
  \<^verbatim>\<open>db.add(Registration(student_id=..., activity_id=...))\<close>, written to the transaction by the
  flush of the following \<^verbatim>\<open>commit\<close>. The table \<^verbatim>\<open>registrations\<close> has no unique column besides
  its key: the insert itself accepts a second row for the same pair.
\<close>

definition add_registration :: "nat \<Rightarrow> nat \<Rightarrow> session \<Rightarrow> session" where
  "add_registration student_id activity_id db =
     (let w = working db;
          registration = \<lparr>r_id = next_id (map r_id (registrations w)),
                           r_student_id = student_id, r_activity_id = activity_id\<rparr>
      in db\<lparr>working := w\<lparr>registrations := registrations w @ [registration]\<rparr>\<rparr>)"

text \<open>\<^verbatim>\<open>db.delete(registration)\<close>: the row with that primary key goes.\<close>

definition delete_registration :: "Registration \<Rightarrow> session \<Rightarrow> session" where
  "delete_registration registration db =
     (let w = working db
      in db\<lparr>working := w\<lparr>registrations :=
              filter (\<lambda>r. r_id r \<noteq> r_id registration) (registrations w)\<rparr>\<rparr>)"

section \<open>Request handlers (app.py)\<close>

subsection \<open>GET /activities\<close>

record activity_info =
  description :: string
  schedule :: string
  max_participants :: int
  participants :: "string list"

text \<open>
  \<^verbatim>\<open>[reg.student.email for reg in activity.registrations]\<close>: each registration's student is
  fetched by primary key.
\<close>

fun participant_emails :: "Student list \<Rightarrow> Registration list \<Rightarrow> error + string list" where
  "participant_emails sts [] = Inr []"
| "participant_emails sts (reg # regs) =
     (case find (\<lambda>st. s_id st = r_student_id reg) sts of
        None \<Rightarrow> Inl AttributeError
      | Some student \<Rightarrow>
          (case participant_emails sts regs of
             Inl e \<Rightarrow> Inl e
           | Inr emails \<Rightarrow> Inr (s_email student # emails)))"

text \<open>
  The loop over \<^verbatim>\<open>activities_list\<close>. The result is a Python dict, kept here as an
  association list in insertion order; \<^verbatim>\<open>result[activity.name] = ...\<close> is \<open>AList.update\<close>.
\<close>

fun activities_loop ::
  "store \<Rightarrow> Activity list \<Rightarrow> (string \<times> activity_info) list \<Rightarrow> error + (string \<times> activity_info) list" where
  "activities_loop w [] result = Inr result"
| "activities_loop w (activity # rest) result =
     (case participant_emails (students w)
             (filter (\<lambda>r. r_activity_id r = a_id activity) (registrations w)) of
        Inl e \<Rightarrow> Inl e
      | Inr ps \<Rightarrow>
          activities_loop w rest
            (AList.update (a_name activity)
               \<lparr>description = a_description activity, schedule = a_schedule activity,
                max_participants = a_max_participants activity, participants = ps\<rparr>
               result))"

definition get_activities :: "session \<Rightarrow> (error + (string \<times> activity_info) list) \<times> session" where
  "get_activities db = (activities_loop (working db) (activities (working db)) [], db)"

subsection \<open>POST /activities/{activity_name}/signup\<close>

text \<open>
  The handler returns \<^verbatim>\<open>{"message": ...}\<close>; the model returns the message. A raised exception
  ends the handler with the session as it is at that point.
\<close>

definition signup_for_activity :: "string \<Rightarrow> string \<Rightarrow> session \<Rightarrow> (error + string) \<times> session" where
  "signup_for_activity activity_name email db =
     (case (case find (\<lambda>st. s_email st = email) (students (working db)) of
              Some student \<Rightarrow> Inr (student, db)
            | None \<Rightarrow> flush_student email None db) of
        Inl e \<Rightarrow> (Inl e, db)
      | Inr (student, db1) \<Rightarrow>
          (case find (\<lambda>a. a_name a = activity_name) (activities (working db1)) of
             None \<Rightarrow> (Inl (HTTPException 404 ''Activity not found''), db1)
           | Some activity \<Rightarrow>
               (case find (\<lambda>r. r_student_id r = s_id student \<and> r_activity_id r = a_id activity)
                       (registrations (working db1)) of
                  Some existing_registration \<Rightarrow>
                    (Inl (HTTPException 400 ''Student is already signed up''), db1)
                | None \<Rightarrow>
                    (Inr (''Signed up '' @ email @ '' for '' @ activity_name),
                     commit (add_registration (s_id student) (a_id activity) db1)))))"

subsection \<open>DELETE /activities/{activity_name}/unregister\<close>

definition unregister_from_activity :: "string \<Rightarrow> string \<Rightarrow> session \<Rightarrow> (error + string) \<times> session" where
  "unregister_from_activity activity_name email db =
     (case find (\<lambda>st. s_email st = email) (students (working db)) of
        None \<Rightarrow> (Inl (HTTPException 400 ''Student not found''), db)
      | Some student \<Rightarrow>
          (case find (\<lambda>a. a_name a = activity_name) (activities (working db)) of
             None \<Rightarrow> (Inl (HTTPException 404 ''Activity not found''), db)
           | Some activity \<Rightarrow>
               (case find (\<lambda>r. r_student_id r = s_id student \<and> r_activity_id r = a_id activity)
                       (registrations (working db)) of
                  None \<Rightarrow>
                    (Inl (HTTPException 400 ''Student is not signed up for this activity''), db)
                | Some registration \<Rightarrow>
                    (Inr (''Unregistered '' @ email @ '' from '' @ activity_name),
                     commit (delete_registration registration db)))))"

text \<open>The three endpoints as requests on the persisted store.\<close>

definition list_request :: "store \<Rightarrow> (error + (string \<times> activity_info) list) \<times> store" where
  "list_request s = get_db get_activities s"

definition signup_request :: "string \<Rightarrow> string \<Rightarrow> store \<Rightarrow> (error + string) \<times> store" where
  "signup_request activity_name email s = get_db (signup_for_activity activity_name email) s"

definition unregister_request :: "string \<Rightarrow> string \<Rightarrow> store \<Rightarrow> (error + string) \<times> store" where
  "unregister_request activity_name email s = get_db (unregister_from_activity activity_name email) s"

section \<open>Startup: init_db\<close>

text \<open>The seed data of \<^verbatim>\<open>init_db\<close>, as the three literals of the source.\<close>

definition initial_activities :: "(string \<times> string \<times> string \<times> int) list" where
  "initial_activities =
     [(''Chess Club'', ''Learn strategies and compete in chess tournaments'',
       ''Fridays, 3:30 PM - 5:00 PM'', 12),
      (''Programming Class'', ''Learn programming fundamentals and build software projects'',
       ''Tuesdays and Thursdays, 3:30 PM - 4:30 PM'', 20),
      (''Gym Class'', ''Physical education and sports activities'',
       ''Mondays, Wednesdays, Fridays, 2:00 PM - 3:00 PM'', 30),
      (''Soccer Team'', ''Join the school soccer team and compete in matches'',
       ''Tuesdays and Thursdays, 4:00 PM - 5:30 PM'', 22),
      (''Basketball Team'', ''Practice and play basketball with the school team'',
       ''Wednesdays and Fridays, 3:30 PM - 5:00 PM'', 15),
      (''Art Club'', ''Explore your creativity through painting and drawing'',
       ''Thursdays, 3:30 PM - 5:00 PM'', 15),
      (''Drama Club'', ''Act, direct, and produce plays and performances'',
       ''Mondays and Wednesdays, 4:00 PM - 5:30 PM'', 20),
      (''Math Club'', ''Solve challenging problems and participate in math competitions'',
       ''Tuesdays, 3:30 PM - 4:30 PM'', 10),
      (''Debate Team'', ''Develop public speaking and argumentation skills'',
       ''Fridays, 4:00 PM - 5:30 PM'', 12)]"

definition initial_students :: "(string \<times> string) list" where
  "initial_students =
     [(''michael@mergington.edu'', ''Michael''),
      (''daniel@mergington.edu'', ''Daniel''),
      (''emma@mergington.edu'', ''Emma''),
      (''sophia@mergington.edu'', ''Sophia''),
      (''john@mergington.edu'', ''John''),
      (''olivia@mergington.edu'', ''Olivia''),
      (''liam@mergington.edu'', ''Liam''),
      (''noah@mergington.edu'', ''Noah''),
      (''ava@mergington.edu'', ''Ava''),
      (''mia@mergington.edu'', ''Mia''),
      (''amelia@mergington.edu'', ''Amelia''),
      (''harper@mergington.edu'', ''Harper''),
      (''ella@mergington.edu'', ''Ella''),
      (''scarlett@mergington.edu'', ''Scarlett''),
      (''james@mergington.edu'', ''James''),
      (''benjamin@mergington.edu'', ''Benjamin''),
      (''charlotte@mergington.edu'', ''Charlotte''),
      (''henry@mergington.edu'', ''Henry'')]"

definition initial_registrations :: "(string \<times> string list) list" where
  "initial_registrations =
     [(''Chess Club'', [''michael@mergington.edu'', ''daniel@mergington.edu'']),
      (''Programming Class'', [''emma@mergington.edu'', ''sophia@mergington.edu'']),
      (''Gym Class'', [''john@mergington.edu'', ''olivia@mergington.edu'']),
      (''Soccer Team'', [''liam@mergington.edu'', ''noah@mergington.edu'']),
      (''Basketball Team'', [''ava@mergington.edu'', ''mia@mergington.edu'']),
      (''Art Club'', [''amelia@mergington.edu'', ''harper@mergington.edu'']),
      (''Drama Club'', [''ella@mergington.edu'', ''scarlett@mergington.edu'']),
      (''Math Club'', [''james@mergington.edu'', ''benjamin@mergington.edu'']),
      (''Debate Team'', [''charlotte@mergington.edu'', ''henry@mergington.edu''])]"

text \<open>
  The three \<^verbatim>\<open>for\<close> statements of \<^verbatim>\<open>init_db\<close>; \<^verbatim>\<open>activity_map\<close> and \<^verbatim>\<open>student_map\<close> are its
  two dicts.
\<close>

fun create_activities ::
  "(string \<times> string \<times> string \<times> int) list \<Rightarrow> (string \<rightharpoonup> Activity) \<Rightarrow> session
     \<Rightarrow> error + ((string \<rightharpoonup> Activity) \<times> session)" where
  "create_activities [] activity_map db = Inr (activity_map, db)"
| "create_activities (activity_data # rest) activity_map db =
     (case flush_activity activity_data db of
        Inl e \<Rightarrow> Inl e
      | Inr (activity, db1) \<Rightarrow>
          create_activities rest (activity_map(fst activity_data \<mapsto> activity)) db1)"

fun create_students ::
  "(string \<times> string) list \<Rightarrow> (string \<rightharpoonup> Student) \<Rightarrow> session
     \<Rightarrow> error + ((string \<rightharpoonup> Student) \<times> session)" where
  "create_students [] student_map db = Inr (student_map, db)"
| "create_students (student_data # rest) student_map db =
     (case flush_student (fst student_data) (Some (snd student_data)) db of
        Inl e \<Rightarrow> Inl e
      | Inr (student, db1) \<Rightarrow>
          create_students rest (student_map(fst student_data \<mapsto> student)) db1)"

fun register_students ::
  "Activity \<Rightarrow> string list \<Rightarrow> (string \<rightharpoonup> Student) \<Rightarrow> session \<Rightarrow> error + session" where
  "register_students activity [] student_map db = Inr db"
| "register_students activity (email # rest) student_map db =
     (case student_map email of
        None \<Rightarrow> Inl KeyError
      | Some student \<Rightarrow>
          register_students activity rest student_map
            (add_registration (s_id student) (a_id activity) db))"

fun create_registrations ::
  "(string \<times> string list) list \<Rightarrow> (string \<rightharpoonup> Activity) \<Rightarrow> (string \<rightharpoonup> Student) \<Rightarrow> session
     \<Rightarrow> error + session" where
  "create_registrations [] activity_map student_map db = Inr db"
| "create_registrations ((activity_name, student_emails) # rest) activity_map student_map db =
     (case activity_map activity_name of
        None \<Rightarrow> Inl KeyError
      | Some activity \<Rightarrow>
          (case register_students activity student_emails student_map db of
             Inl e \<Rightarrow> Inl e
           | Inr db1 \<Rightarrow> create_registrations rest activity_map student_map db1))"

text \<open>
  \<^verbatim>\<open>init_db\<close>: nothing happens when the table of activities has a row; otherwise the seed is
  written and committed. An exception rolls the session back and is raised again.
\<close>

definition init_db :: "store \<Rightarrow> (error + unit) \<times> store" where
  "init_db s =
     (let db = SessionLocal s in
      if length (activities (working db)) > 0 then (Inr (), close db)
      else
        (case (case create_activities initial_activities Map.empty db of
                 Inl e \<Rightarrow> Inl e
               | Inr (activity_map, db1) \<Rightarrow>
                   (case create_students initial_students Map.empty db1 of
                      Inl e \<Rightarrow> Inl e
                    | Inr (student_map, db2) \<Rightarrow>
                        create_registrations initial_registrations activity_map student_map db2)) of
           Inl e \<Rightarrow> (Inl e, close (rollback db))
         | Inr db3 \<Rightarrow> (Inr (), close (commit db3))))"

section \<open>Constraints and invariants of the store\<close>

text \<open>
  What the schema declares: primary keys, the two \<^verbatim>\<open>unique=True\<close> columns, and the two
  foreign keys of a registration.
\<close>

definition schema_ok :: "store \<Rightarrow> bool" where
  "schema_ok s \<longleftrightarrow>
     distinct (map a_id (activities s)) \<and> distinct (map a_name (activities s)) \<and>
     distinct (map s_id (students s)) \<and> distinct (map s_email (students s)) \<and>
     distinct (map r_id (registrations s))"

definition foreign_keys_ok :: "store \<Rightarrow> bool" where
  "foreign_keys_ok s \<longleftrightarrow>
     list_all (\<lambda>r. r_student_id r \<in> set (map s_id (students s)) \<and>
                   r_activity_id r \<in> set (map a_id (activities s)))
       (registrations s)"

text \<open>At most one registration for each pair of a student and an activity.\<close>

definition one_registration_per_pair :: "store \<Rightarrow> bool" where
  "one_registration_per_pair s \<longleftrightarrow>
     distinct (map (\<lambda>r. (r_student_id r, r_activity_id r)) (registrations s))"

definition registrations_of :: "store \<Rightarrow> nat \<Rightarrow> nat \<Rightarrow> Registration list" where
  "registrations_of s student_id activity_id =
     filter (\<lambda>r. r_student_id r = student_id \<and> r_activity_id r = activity_id) (registrations s)"

text \<open>
  The states the service can be in: the seed written by \<^verbatim>\<open>init_db\<close> into a fresh database,
  and whatever the three endpoints, and a restart, make of a state already reached.
\<close>

inductive reachable :: "store \<Rightarrow> bool" where
  seeded: "init_db empty_store = (Inr (), s) \<Longrightarrow> reachable s"
| restarted: "reachable s \<Longrightarrow> init_db s = (Inr (), s') \<Longrightarrow> reachable s'"
| listed: "reachable s \<Longrightarrow> reachable (snd (list_request s))"
| signed_up: "reachable s \<Longrightarrow> reachable (snd (signup_request activity_name email s))"
| unregistered: "reachable s \<Longrightarrow> reachable (snd (unregister_request activity_name email s))"

text \<open>The participant list of an activity as \<^verbatim>\<open>GET /activities\<close> reports it.\<close>

definition participants_of :: "store \<Rightarrow> string \<Rightarrow> string list option" where
  "participants_of s activity_name =
     (case fst (list_request s) of
        Inl e \<Rightarrow> None
      | Inr result \<Rightarrow> map_option participants (map_of result activity_name))"

text \<open>The schema constraints together with the invariant on pairs.\<close>

definition store_ok :: "store \<Rightarrow> bool" where
  "store_ok s \<longleftrightarrow> schema_ok s \<and> foreign_keys_ok s \<and> one_registration_per_pair s"

text \<open>The store after the first startup on a fresh database.\<close>

definition seed_store :: store where
  "seed_store = snd (init_db empty_store)"

text \<open>
  The student with this email has a registration for the activity with this name, looked up
  the way both handlers look them up.
\<close>

definition is_registered :: "store \<Rightarrow> string \<Rightarrow> string \<Rightarrow> bool" where
  "is_registered s email activity_name =
     (case find (\<lambda>st. s_email st = email) (students s) of
        None \<Rightarrow> False
      | Some student \<Rightarrow>
          (case find (\<lambda>a. a_name a = activity_name) (activities s) of
             None \<Rightarrow> False
           | Some activity \<Rightarrow> registrations_of s (s_id student) (a_id activity) \<noteq> []))"

text \<open>The same store with every \<^verbatim>\<open>max_participants\<close> overwritten.\<close>

definition set_capacity :: "(Activity \<Rightarrow> int) \<Rightarrow> store \<Rightarrow> store" where
  "set_capacity f s = s\<lparr>activities := map (\<lambda>a. a\<lparr>a_max_participants := f a\<rparr>) (activities s)\<rparr>"

text \<open>A small store whose only activity is full: one place, one participant.\<close>

definition full_store :: store where
  "full_store =
     \<lparr>activities = [\<lparr>a_id = 1, a_name = ''Math Club'',
                      a_description = ''Solve challenging problems and participate in math competitions'',
                      a_schedule = ''Tuesdays, 3:30 PM - 4:30 PM'', a_max_participants = 1\<rparr>],
      students = [\<lparr>s_id = 1, s_email = ''james@mergington.edu'', s_name = Some ''James'',
                    s_grade_level = None\<rparr>,
                  \<lparr>s_id = 2, s_email = ''benjamin@mergington.edu'', s_name = Some ''Benjamin'',
                    s_grade_level = None\<rparr>],
      registrations = [\<lparr>r_id = 1, r_student_id = 1, r_activity_id = 1\<rparr>]\<rparr>"

section \<open>Properties\<close>

lemmas session_defs = get_db_def SessionLocal_def close_def commit_def rollback_def
  add_registration_def delete_registration_def

lemma flush_student_unseen:
  assumes "find (\<lambda>st. s_email st = e) (students (working db)) = None"
  shows "flush_student e nm db =
     Inr (\<lparr>s_id = next_id (map s_id (students (working db))), s_email = e,
            s_name = nm, s_grade_level = None\<rparr>,
          db\<lparr>working := (working db)\<lparr>students := students (working db) @
             [\<lparr>s_id = next_id (map s_id (students (working db))), s_email = e,
               s_name = nm, s_grade_level = None\<rparr>]\<rparr>\<rparr>)"
proof -
  from assms have "e \<notin> set (map s_email (students (working db)))"
    by (auto simp: find_None_iff)
  then show ?thesis
    by (simp add: flush_student_def Let_def)
qed

lemma signup_no_activity:
  assumes "find (\<lambda>a. a_name a = n) (activities s) = None"
  shows "signup_request n e s = (Inl (HTTPException 404 ''Activity not found''), s)"
  using assms
  by (cases "find (\<lambda>st. s_email st = e) (students s)")
     (simp_all add: signup_request_def signup_for_activity_def session_defs flush_student_unseen Let_def)

lemma signup_known_student:
  assumes "find (\<lambda>a. a_name a = n) (activities s) = Some a"
    and "find (\<lambda>st. s_email st = e) (students s) = Some st"
  shows "signup_request n e s =
     (if find (\<lambda>r. r_student_id r = s_id st \<and> r_activity_id r = a_id a) (registrations s) = None
      then (Inr (''Signed up '' @ e @ '' for '' @ n),
            s\<lparr>registrations := registrations s @
                 [\<lparr>r_id = next_id (map r_id (registrations s)),
                   r_student_id = s_id st, r_activity_id = a_id a\<rparr>]\<rparr>)
      else (Inl (HTTPException 400 ''Student is already signed up''), s))"
  using assms
  by (cases "find (\<lambda>r. r_student_id r = s_id st \<and> r_activity_id r = a_id a) (registrations s)")
     (simp_all add: signup_request_def signup_for_activity_def session_defs Let_def)

lemma signup_new_student:
  assumes "find (\<lambda>a. a_name a = n) (activities s) = Some a"
    and "find (\<lambda>st. s_email st = e) (students s) = None"
    and "st = \<lparr>s_id = next_id (map s_id (students s)), s_email = e,
                s_name = None, s_grade_level = None\<rparr>"
  shows "signup_request n e s =
     (if find (\<lambda>r. r_student_id r = s_id st \<and> r_activity_id r = a_id a) (registrations s) = None
      then (Inr (''Signed up '' @ e @ '' for '' @ n),
            s\<lparr>students := students s @ [st],
              registrations := registrations s @
                 [\<lparr>r_id = next_id (map r_id (registrations s)),
                   r_student_id = s_id st, r_activity_id = a_id a\<rparr>]\<rparr>)
      else (Inl (HTTPException 400 ''Student is already signed up''), s))"
  using assms
  by (cases "find (\<lambda>r. r_student_id r = s_id st \<and> r_activity_id r = a_id a) (registrations s)")
     (simp_all add: signup_request_def signup_for_activity_def session_defs flush_student_unseen Let_def)

lemma unregister_cases:
  "unregister_request n e s =
     (case find (\<lambda>st. s_email st = e) (students s) of
        None \<Rightarrow> (Inl (HTTPException 400 ''Student not found''), s)
      | Some st \<Rightarrow>
          (case find (\<lambda>a. a_name a = n) (activities s) of
             None \<Rightarrow> (Inl (HTTPException 404 ''Activity not found''), s)
           | Some a \<Rightarrow>
               (case find (\<lambda>r. r_student_id r = s_id st \<and> r_activity_id r = a_id a) (registrations s) of
                  None \<Rightarrow> (Inl (HTTPException 400 ''Student is not signed up for this activity''), s)
                | Some reg \<Rightarrow>
                    (Inr (''Unregistered '' @ e @ '' from '' @ n),
                     s\<lparr>registrations := filter (\<lambda>r. r_id r \<noteq> r_id reg) (registrations s)\<rparr>))))"
  by (simp add: unregister_request_def unregister_from_activity_def session_defs Let_def
      split: option.splits)

lemma list_request_store: "snd (list_request s) = s"
  by (simp add: list_request_def get_activities_def session_defs)

lemma fold_max_ge: "acc \<le> fold max ids (acc::nat)"
proof (induction ids arbitrary: acc)
  case Nil
  show ?case by simp
next
  case (Cons y ys)
  have "max y acc \<le> fold max ys (max y acc)" by (rule Cons.IH)
  then show ?case by simp
qed

lemma fold_max_member: "x \<in> set ids \<Longrightarrow> x \<le> fold max ids (acc::nat)"
proof (induction ids arbitrary: acc)
  case Nil
  then show ?case by simp
next
  case (Cons y ys)
  show ?case
  proof (cases "x = y")
    case True
    have "max y acc \<le> fold max ys (max y acc)" by (rule fold_max_ge)
    with True show ?thesis by simp
  next
    case False
    with Cons.prems have "x \<in> set ys" by simp
    then show ?thesis using Cons.IH by simp
  qed
qed

lemma next_id_fresh: "x \<in> set ids \<Longrightarrow> x < next_id ids"
  using fold_max_member [of x ids 0] by (simp add: next_id_def)

lemma next_id_notin: "next_id ids \<notin> set ids"
  using next_id_fresh [of "next_id ids" ids] by auto

lemma find_SomeD: "find P xs = Some x \<Longrightarrow> x \<in> set xs \<and> P x"
  by (induction xs) (auto split: if_splits)

text \<open>Outcome of signup, as a disjunction over its three ends.\<close>

lemma signup_outcome:
  obtains
    (not_found) "find (\<lambda>a. a_name a = n) (activities s) = None"
      "signup_request n e s = (Inl (HTTPException 404 ''Activity not found''), s)"
  | (conflict) a and st :: Student where "find (\<lambda>a. a_name a = n) (activities s) = Some a"
      "find (\<lambda>r. r_student_id r = s_id st \<and> r_activity_id r = a_id a) (registrations s) \<noteq> None"
      "signup_request n e s = (Inl (HTTPException 400 ''Student is already signed up''), s)"
  | (known) a st where "find (\<lambda>a. a_name a = n) (activities s) = Some a"
      "find (\<lambda>st. s_email st = e) (students s) = Some st"
      "find (\<lambda>r. r_student_id r = s_id st \<and> r_activity_id r = a_id a) (registrations s) = None"
      "signup_request n e s = (Inr (''Signed up '' @ e @ '' for '' @ n),
            s\<lparr>registrations := registrations s @
                 [\<lparr>r_id = next_id (map r_id (registrations s)),
                   r_student_id = s_id st, r_activity_id = a_id a\<rparr>]\<rparr>)"
  | (unseen) a st where "find (\<lambda>a. a_name a = n) (activities s) = Some a"
      "find (\<lambda>st. s_email st = e) (students s) = None"
      "st = \<lparr>s_id = next_id (map s_id (students s)), s_email = e,
                s_name = None, s_grade_level = None\<rparr>"
      "find (\<lambda>r. r_student_id r = s_id st \<and> r_activity_id r = a_id a) (registrations s) = None"
      "signup_request n e s = (Inr (''Signed up '' @ e @ '' for '' @ n),
            s\<lparr>students := students s @ [st],
              registrations := registrations s @
                 [\<lparr>r_id = next_id (map r_id (registrations s)),
                   r_student_id = s_id st, r_activity_id = a_id a\<rparr>]\<rparr>)"
proof (cases "find (\<lambda>a. a_name a = n) (activities s)")
  case None
  then show ?thesis using not_found signup_no_activity by blast
next
  case (Some a)
  show ?thesis
  proof (cases "find (\<lambda>st. s_email st = e) (students s)")
    case None
    define st where "st = \<lparr>s_id = next_id (map s_id (students s)), s_email = e,
                s_name = None, s_grade_level = None\<rparr>"
    note nf = signup_new_student [OF Some None st_def]
    show ?thesis
    proof (cases "find (\<lambda>r. r_student_id r = s_id st \<and> r_activity_id r = a_id a) (registrations s)")
      case None' : None
      then show ?thesis using unseen [OF Some None st_def] nf by simp
    next
      case Some' : (Some r)
      then show ?thesis using conflict [OF Some, of st] nf by simp
    qed
  next
    case Some2 : (Some st)
    note nf = signup_known_student [OF Some Some2]
    show ?thesis
    proof (cases "find (\<lambda>r. r_student_id r = s_id st \<and> r_activity_id r = a_id a) (registrations s)")
      case None
      then show ?thesis using known [OF Some Some2] nf by simp
    next
      case Some' : (Some r)
      then show ?thesis using conflict [OF Some, of st] nf by simp
    qed
  qed
qed

lemma signup_pairs:
  assumes "one_registration_per_pair s"
  shows "one_registration_per_pair (snd (signup_request n e s))"
proof (cases rule: signup_outcome [of n s e])
  case not_found
  then show ?thesis using assms by simp
next
  case (conflict a st)
  then show ?thesis using assms by simp
next
  case (known a st)
  then show ?thesis using assms
    by (auto simp: one_registration_per_pair_def find_None_iff)
next
  case (unseen a st)
  then show ?thesis using assms
    by (auto simp: one_registration_per_pair_def find_None_iff)
qed

lemma unregister_store:
  "snd (unregister_request n e s) = s \<or>
   (\<exists>reg. reg \<in> set (registrations s) \<and> snd (unregister_request n e s) =
      s\<lparr>registrations := filter (\<lambda>r. r_id r \<noteq> r_id reg) (registrations s)\<rparr>)"
  by (auto simp: unregister_cases split: option.splits dest: find_SomeD)

lemma unregister_pairs:
  assumes "one_registration_per_pair s"
  shows "one_registration_per_pair (snd (unregister_request n e s))"
  using assms unregister_store [of n e s]
  by (auto simp: one_registration_per_pair_def distinct_map_filter)

lemma signup_schema:
  assumes "schema_ok s"
  shows "schema_ok (snd (signup_request n e s))"
proof (cases rule: signup_outcome [of n s e])
  case not_found
  then show ?thesis using assms by simp
next
  case (conflict a st)
  then show ?thesis using assms by simp
next
  case (known a st)
  then show ?thesis using assms next_id_notin [of "map r_id (registrations s)"]
    by (simp add: schema_ok_def)
next
  case (unseen a st)
  then show ?thesis using assms next_id_notin [of "map r_id (registrations s)"]
      next_id_notin [of "map s_id (students s)"]
    by (auto simp: schema_ok_def find_None_iff)
qed

lemma unregister_schema:
  assumes "schema_ok s"
  shows "schema_ok (snd (unregister_request n e s))"
  using assms unregister_store [of n e s]
  by (auto simp: schema_ok_def distinct_map_filter)

lemma signup_foreign_keys:
  assumes "foreign_keys_ok s"
  shows "foreign_keys_ok (snd (signup_request n e s))"
proof (cases rule: signup_outcome [of n s e])
  case not_found
  then show ?thesis using assms by simp
next
  case (conflict a st)
  then show ?thesis using assms by simp
next
  case (known a st)
  then show ?thesis using assms find_SomeD [OF known(1)] find_SomeD [OF known(2)]
    by (auto simp: foreign_keys_ok_def list_all_iff)
next
  case (unseen a st)
  then show ?thesis using assms find_SomeD [OF unseen(1)]
    by (auto simp: foreign_keys_ok_def list_all_iff)
qed

lemma unregister_foreign_keys:
  assumes "foreign_keys_ok s"
  shows "foreign_keys_ok (snd (unregister_request n e s))"
  using assms unregister_store [of n e s]
  by (auto simp: foreign_keys_ok_def list_all_iff)

lemma signup_activities: "activities (snd (signup_request n e s)) = activities s"
  by (cases rule: signup_outcome [of n s e]) simp_all

lemma unregister_activities: "activities (snd (unregister_request n e s)) = activities s"
  using unregister_store [of n e s] by auto

lemma init_db_restart: "activities s \<noteq> [] \<Longrightarrow> init_db s = (Inr (), s)"
  by (simp add: init_db_def SessionLocal_def close_def)

lemma seed_result: "fst (init_db empty_store) = Inr ()"
  by code_simp

lemma seed_activities: "activities (snd (init_db empty_store)) \<noteq> []"
  by code_simp

lemma seed_schema: "schema_ok (snd (init_db empty_store))"
  by code_simp

lemma seed_foreign_keys: "foreign_keys_ok (snd (init_db empty_store))"
  by code_simp

lemma seed_pairs: "one_registration_per_pair (snd (init_db empty_store))"
  by code_simp

lemma reachable_invariants:
  "reachable s \<Longrightarrow> activities s \<noteq> [] \<and> store_ok s"
proof (induction rule: reachable.induct)
  case (seeded s)
  then have "s = snd (init_db empty_store)" by simp
  then show ?case
    using seed_activities seed_schema seed_foreign_keys seed_pairs by (simp add: store_ok_def)
next
  case (restarted s s')
  then show ?case using init_db_restart [of s] by simp
next
  case (listed s)
  then show ?case by (simp add: list_request_store)
next
  case (signed_up s activity_name email)
  then show ?case
    by (simp add: store_ok_def signup_activities signup_schema signup_foreign_keys signup_pairs)
next
  case (unregistered s activity_name email)
  then show ?case
    by (simp add: store_ok_def unregister_activities unregister_schema unregister_foreign_keys unregister_pairs)
qed

lemma find_filter_None: "find P xs = None \<longleftrightarrow> filter P xs = []"
  by (induction xs) auto

lemma find_append: "find P (xs @ ys) = (case find P xs of None \<Rightarrow> find P ys | Some x \<Rightarrow> Some x)"
  by (induction xs) auto

lemma find_by_id_total:
  assumes "i \<in> set (map s_id sts)"
  shows "\<exists>st. find (\<lambda>st. s_id st = i) sts = Some st"
  using assms by (cases "find (\<lambda>st. s_id st = i) sts") (auto simp: find_None_iff)

lemma participant_emails_total:
  assumes "list_all (\<lambda>r. r_student_id r \<in> set (map s_id sts)) regs"
  shows "\<exists>es. participant_emails sts regs = Inr es"
  using assms
proof (induction regs)
  case Nil
  show ?case by simp
next
  case (Cons reg regs)
  then obtain es where es: "participant_emails sts regs = Inr es" by auto
  from Cons.prems obtain st where "find (\<lambda>st. s_id st = r_student_id reg) sts = Some st"
    using find_by_id_total [of "r_student_id reg" sts] by auto
  with es show ?case by simp
qed

lemma participant_emails_extend:
  assumes "list_all (\<lambda>r. r_student_id r \<in> set (map s_id sts)) regs"
  shows "participant_emails (sts @ ext) regs = participant_emails sts regs"
  using assms
proof (induction regs)
  case Nil
  show ?case by simp
next
  case (Cons reg regs)
  from Cons.prems obtain st where "find (\<lambda>st. s_id st = r_student_id reg) sts = Some st"
    using find_by_id_total [of "r_student_id reg" sts] by auto
  then show ?case using Cons by (simp add: find_append)
qed

lemma participant_emails_count:
  assumes ids: "distinct (map s_id sts)" and emails: "distinct (map s_email sts)"
    and st: "st \<in> set sts"
    and run: "participant_emails sts regs = Inr es"
  shows "count_list es (s_email st) = length (filter (\<lambda>r. r_student_id r = s_id st) regs)"
  using run
proof (induction regs arbitrary: es)
  case Nil
  then show ?case by auto
next
  case (Cons reg regs)
  from Cons.prems obtain st' es' where
    f: "find (\<lambda>st. s_id st = r_student_id reg) sts = Some st'" and
    r: "participant_emails sts regs = Inr es'" and
    es: "es = s_email st' # es'"
    by (auto split: option.splits sum.splits)
  from find_SomeD [OF f] have st': "st' \<in> set sts" "s_id st' = r_student_id reg" by auto
  from ids have "inj_on s_id (set sts)" by (simp add: distinct_map)
  with st st'(1) have a: "s_id st' = s_id st \<longleftrightarrow> st' = st" by (simp add: inj_on_eq_iff)
  from emails have "inj_on s_email (set sts)" by (simp add: distinct_map)
  with st st'(1) have b: "s_email st' = s_email st \<longleftrightarrow> st' = st" by (simp add: inj_on_eq_iff)
  from a b st'(2) have "s_email st' = s_email st \<longleftrightarrow> r_student_id reg = s_id st" by simp
  then show ?case using Cons.IH [OF r] es by simp
qed

lemma activities_loop_total:
  assumes "\<forall>a\<in>set as. \<exists>ps. participant_emails (students w)
              (filter (\<lambda>r. r_activity_id r = a_id a) (registrations w)) = Inr ps"
  shows "\<exists>res. activities_loop w as acc = Inr res"
  using assms
proof (induction as arbitrary: acc)
  case Nil
  show ?case by simp
next
  case (Cons a as)
  then obtain ps where "participant_emails (students w)
              (filter (\<lambda>r. r_activity_id r = a_id a) (registrations w)) = Inr ps" by auto
  then show ?case using Cons by simp
qed

lemma activities_loop_lookup:
  assumes "distinct (map a_name as)" and "activities_loop w as acc = Inr res"
    and "find (\<lambda>a. a_name a = n) as = Some a"
  shows "\<exists>ps. participant_emails (students w)
              (filter (\<lambda>r. r_activity_id r = a_id a) (registrations w)) = Inr ps \<and>
          map_of res n = Some \<lparr>description = a_description a, schedule = a_schedule a,
                max_participants = a_max_participants a, participants = ps\<rparr>"
proof -
  have keep: "\<And>acc res. activities_loop w as acc = Inr res \<Longrightarrow> n \<notin> set (map a_name as)
      \<Longrightarrow> map_of res n = map_of acc n" for as
  proof (induction as)
    case Nil
    then show ?case by simp
  next
    case (Cons b bs)
    then show ?case by (auto split: sum.splits simp: update_conv')
  qed
  show ?thesis using assms
  proof (induction as arbitrary: acc)
    case Nil
    then show ?case by simp
  next
    case (Cons b bs)
    from Cons.prems(2) obtain ps where
      ps: "participant_emails (students w)
              (filter (\<lambda>r. r_activity_id r = a_id b) (registrations w)) = Inr ps" and
      rest: "activities_loop w bs (AList.update (a_name b)
               \<lparr>description = a_description b, schedule = a_schedule b,
                max_participants = a_max_participants b, participants = ps\<rparr> acc) = Inr res"
      by (auto split: sum.splits)
    show ?case
    proof (cases "a_name b = n")
      case True
      with Cons.prems(3) have "a = b" by simp
      from True Cons.prems(1) have "n \<notin> set (map a_name bs)" by auto
      from keep [OF rest this] have "map_of res n = Some \<lparr>description = a_description b, schedule = a_schedule b,
                max_participants = a_max_participants b, participants = ps\<rparr>"
        using True by (simp add: update_conv')
      with ps \<open>a = b\<close> show ?thesis by simp
    next
      case False
      with Cons.prems(3) have "find (\<lambda>a. a_name a = n) bs = Some a" by simp
      moreover from Cons.prems(1) have "distinct (map a_name bs)" by simp
      ultimately show ?thesis using Cons.IH rest by blast
    qed
  qed
qed

lemma activities_loop_students:
  assumes "registrations w' = registrations w"
    and "\<And>a :: Activity. participant_emails (students w') (filter (\<lambda>r. r_activity_id r = a_id a) (registrations w))
         = participant_emails (students w) (filter (\<lambda>r. r_activity_id r = a_id a) (registrations w))"
  shows "activities_loop w' as acc = activities_loop w as acc"
proof (induction as arbitrary: acc)
  case Nil
  show ?case by simp
next
  case (Cons a as)
  have same: "participant_emails (students w')
         (filter (\<lambda>r. r_activity_id r = a_id a) (registrations w')) =
       participant_emails (students w)
         (filter (\<lambda>r. r_activity_id r = a_id a) (registrations w))"
    by (simp add: assms)
  show ?case
  proof (cases "participant_emails (students w)
         (filter (\<lambda>r. r_activity_id r = a_id a) (registrations w))")
    case (Inl err)
    with same show ?thesis by simp
  next
    case (Inr ps)
    with same show ?thesis by (simp add: Cons.IH)
  qed
qed

lemma list_request_result: "fst (list_request s) = activities_loop s (activities s) []"
  by (simp add: list_request_def get_activities_def session_defs)

lemma list_all_filter: "list_all P xs \<Longrightarrow> list_all P (filter Q xs)"
  by (simp add: list_all_iff)

lemma foreign_keys_students:
  "foreign_keys_ok s \<Longrightarrow> list_all (\<lambda>r. r_student_id r \<in> set (map s_id (students s))) (registrations s)"
  by (simp add: foreign_keys_ok_def list_all_iff)

lemma list_request_total:
  assumes "foreign_keys_ok s"
  shows "\<exists>res. fst (list_request s) = Inr res"
  unfolding list_request_result
  by (rule activities_loop_total)
     (use assms in \<open>blast intro: participant_emails_total list_all_filter foreign_keys_students\<close>)

lemma participants_of_known:
  assumes "schema_ok s" and "foreign_keys_ok s"
    and "find (\<lambda>a. a_name a = n) (activities s) = Some a"
  shows "\<exists>ps. participants_of s n = Some ps \<and>
     participant_emails (students s)
       (filter (\<lambda>r. r_activity_id r = a_id a) (registrations s)) = Inr ps"
proof -
  from list_request_total [OF assms(2)] obtain res where res: "fst (list_request s) = Inr res" ..
  then have "activities_loop s (activities s) [] = Inr res" by (simp add: list_request_result)
  moreover from assms(1) have "distinct (map a_name (activities s))" by (simp add: schema_ok_def)
  ultimately obtain ps where "participant_emails (students s)
       (filter (\<lambda>r. r_activity_id r = a_id a) (registrations s)) = Inr ps"
     "map_of res n = Some \<lparr>description = a_description a, schedule = a_schedule a,
                max_participants = a_max_participants a, participants = ps\<rparr>"
    using activities_loop_lookup [OF _ _ assms(3)] by blast
  with res show ?thesis by (simp add: participants_of_def)
qed

lemma participants_count:
  assumes "schema_ok s" and "foreign_keys_ok s"
    and a: "find (\<lambda>a. a_name a = n) (activities s) = Some a"
    and st: "find (\<lambda>st. s_email st = e) (students s) = Some st"
  shows "\<exists>ps. participants_of s n = Some ps \<and>
     count_list ps e = length (registrations_of s (s_id st) (a_id a))"
proof -
  from participants_of_known [OF assms(1,2) a] obtain ps where
    ps: "participants_of s n = Some ps" and
    run: "participant_emails (students s)
       (filter (\<lambda>r. r_activity_id r = a_id a) (registrations s)) = Inr ps" by blast
  from find_SomeD [OF st] have mem: "st \<in> set (students s)" and e: "s_email st = e" by auto
  from assms(1) have "distinct (map s_id (students s))" "distinct (map s_email (students s))"
    by (simp_all add: schema_ok_def)
  from participant_emails_count [OF this mem run]
  have "count_list ps e = length (registrations_of s (s_id st) (a_id a))"
    by (simp add: e registrations_of_def conj_commute)
  with ps show ?thesis by blast
qed

lemma distinct_map_count_le:
  "distinct (map f xs) \<Longrightarrow> length (filter (\<lambda>x. f x = k) xs) \<le> 1"
proof (induction xs)
  case Nil
  show ?case by simp
next
  case (Cons x xs)
  show ?case
  proof (cases "f x = k")
    case True
    from Cons.prems have "f x \<notin> f ` set xs" by simp
    with True have "\<forall>y\<in>set xs. f y \<noteq> k" by blast
    then have "filter (\<lambda>x. f x = k) xs = []" by (simp add: filter_empty_conv)
    with True show ?thesis by simp
  next
    case False
    with Cons show ?thesis by simp
  qed
qed

lemma pair_count:
  assumes "one_registration_per_pair s"
  shows "length (registrations_of s student_id activity_id) \<le> 1"
proof -
  from assms have "distinct (map (\<lambda>r. (r_student_id r, r_activity_id r)) (registrations s))"
    by (simp add: one_registration_per_pair_def)
  from distinct_map_count_le [OF this, of "(student_id, activity_id)"]
  show ?thesis by (simp add: registrations_of_def)
qed

lemma is_registeredD:
  assumes "is_registered s e n"
  obtains st a where "find (\<lambda>st. s_email st = e) (students s) = Some st"
    and "find (\<lambda>a. a_name a = n) (activities s) = Some a"
    and "registrations_of s (s_id st) (a_id a) \<noteq> []"
  using assms by (auto simp: is_registered_def split: option.splits)

lemma signup_registered:
  assumes "is_registered s e n"
  shows "signup_request n e s = (Inl (HTTPException 400 ''Student is already signed up''), s)"
proof -
  from assms obtain st a where st: "find (\<lambda>st. s_email st = e) (students s) = Some st"
    and a: "find (\<lambda>a. a_name a = n) (activities s) = Some a"
    and r: "registrations_of s (s_id st) (a_id a) \<noteq> []"
    by (rule is_registeredD)
  from r have "find (\<lambda>r. r_student_id r = s_id st \<and> r_activity_id r = a_id a) (registrations s) \<noteq> None"
    by (simp add: find_filter_None registrations_of_def)
  then show ?thesis by (simp add: signup_known_student [OF a st])
qed

lemma insert_unchecked:
  assumes "registrations_of s student_id activity_id \<noteq> []"
  shows "\<not> one_registration_per_pair (working (add_registration student_id activity_id (SessionLocal s)))"
proof -
  from assms obtain r where "r \<in> set (registrations s)" "r_student_id r = student_id"
      "r_activity_id r = activity_id"
    by (auto simp: registrations_of_def filter_empty_conv)
  then have "(student_id, activity_id) \<in> (\<lambda>r. (r_student_id r, r_activity_id r)) ` set (registrations s)"
    by force
  then show ?thesis
    by (simp add: one_registration_per_pair_def add_registration_def SessionLocal_def Let_def)
qed

lemma filter_fresh_id: "filter (\<lambda>r. r_id r \<noteq> next_id (map r_id regs)) regs = regs"
proof -
  have "\<forall>r\<in>set regs. r_id r \<noteq> next_id (map r_id regs)"
    using next_id_notin [of "map r_id regs"] by force
  then show ?thesis by (simp add: filter_id_conv)
qed

lemma list_request_more_students:
  assumes "foreign_keys_ok s"
  shows "fst (list_request (s\<lparr>students := students s @ ext\<rparr>)) = fst (list_request s)"
proof -
  have "activities_loop (s\<lparr>students := students s @ ext\<rparr>) (activities s) [] =
        activities_loop s (activities s) []"
  proof (rule activities_loop_students)
    show "registrations (s\<lparr>students := students s @ ext\<rparr>) = registrations s" by simp
  next
    fix a :: Activity
    have "list_all (\<lambda>r. r_student_id r \<in> set (map s_id (students s)))
            (filter (\<lambda>r. r_activity_id r = a_id a) (registrations s))"
      using assms by (intro list_all_filter foreign_keys_students)
    from participant_emails_extend [OF this, of ext]
    show "participant_emails (students (s\<lparr>students := students s @ ext\<rparr>))
            (filter (\<lambda>r. r_activity_id r = a_id a) (registrations s)) =
          participant_emails (students s)
            (filter (\<lambda>r. r_activity_id r = a_id a) (registrations s))"
      by simp
  qed
  then show ?thesis by (simp add: list_request_result)
qed

lemma participants_of_cong:
  "fst (list_request s') = fst (list_request s) \<Longrightarrow> participants_of s' n = participants_of s n"
  by (simp add: participants_of_def)

lemma activities_loop_keys:
  assumes "activities_loop w as acc = Inr res"
    and "n \<in> set (map a_name as) \<or> map_of acc n \<noteq> None"
  shows "map_of res n \<noteq> None"
  using assms
proof (induction as arbitrary: acc)
  case Nil
  then show ?case by simp
next
  case (Cons b bs)
  from Cons.prems(1) obtain ps where
    rest: "activities_loop w bs (AList.update (a_name b)
               \<lparr>description = a_description b, schedule = a_schedule b,
                max_participants = a_max_participants b, participants = ps\<rparr> acc) = Inr res"
    by (auto split: sum.splits)
  from Cons.prems(2) have "n \<in> set (map a_name bs) \<or>
      map_of (AList.update (a_name b)
               \<lparr>description = a_description b, schedule = a_schedule b,
                max_participants = a_max_participants b, participants = ps\<rparr> acc) n \<noteq> None"
    by (auto simp: update_conv')
  with rest show ?case by (rule Cons.IH)
qed

lemma participants_of_listed:
  assumes "foreign_keys_ok s" and "find (\<lambda>a. a_name a = n) (activities s) = Some a"
  shows "\<exists>ps. participants_of s n = Some ps"
proof -
  from list_request_total [OF assms(1)] obtain res where res: "fst (list_request s) = Inr res" ..
  then have loop: "activities_loop s (activities s) [] = Inr res"
    by (simp add: list_request_result)
  from find_SomeD [OF assms(2)] have "n \<in> set (map a_name (activities s))" by force
  with activities_loop_keys [OF loop, of n] have "map_of res n \<noteq> None" by simp
  with res show ?thesis by (auto simp: participants_of_def)
qed

lemma find_map_same:
  assumes "\<And>x. P (g x) = P x"
  shows "find P (map g xs) = map_option g (find P xs)"
  by (induction xs) (simp_all add: assms)

lemma signup_set_capacity:
  "signup_request n e (set_capacity f s) =
     (fst (signup_request n e s), set_capacity f (snd (signup_request n e s)))"
proof -
  let ?g = "\<lambda>a. a\<lparr>a_max_participants := f a\<rparr>"
  have fa: "find (\<lambda>a. a_name a = n) (activities (set_capacity f s)) =
      map_option ?g (find (\<lambda>a. a_name a = n) (activities s))"
    by (simp add: set_capacity_def find_map_same)
  have st: "students (set_capacity f s) = students s" by (simp add: set_capacity_def)
  have rg: "registrations (set_capacity f s) = registrations s" by (simp add: set_capacity_def)
  show ?thesis
  proof (cases "find (\<lambda>a. a_name a = n) (activities s)")
    case None
    with fa have "find (\<lambda>a. a_name a = n) (activities (set_capacity f s)) = None" by simp
    then show ?thesis using None by (simp add: signup_no_activity)
  next
    case (Some a)
    with fa have fa': "find (\<lambda>a. a_name a = n) (activities (set_capacity f s)) = Some (?g a)"
      by simp
    show ?thesis
    proof (cases "find (\<lambda>st. s_email st = e) (students s)")
      case None
      then have none': "find (\<lambda>st. s_email st = e) (students (set_capacity f s)) = None"
        by (simp add: st)
      show ?thesis
        by (simp add: signup_new_student [OF fa' none' refl] signup_new_student [OF Some None refl]
            st rg) (simp add: set_capacity_def)
    next
      case Some2 : (Some st')
      then have some': "find (\<lambda>st. s_email st = e) (students (set_capacity f s)) = Some st'"
        by (simp add: st)
      show ?thesis
        by (simp add: signup_known_student [OF fa' some'] signup_known_student [OF Some Some2]
            st rg) (simp add: set_capacity_def)
    qed
  qed
qed

subsection \<open>The invariant on pairs\<close>

text \<open>
  Claim C1. In every reachable store there is at most one registration for each pair of a
  student and an activity. Each of the three requests (list, signup, unregister) takes a
  store with at most one registration per pair to such a store again. Signup keeps the
  invariant by its own check: when the pair is registered, the request is refused before
  anything is inserted. The insert does not check: adding a registration for a pair that
  has one gives a table with two.
\<close>

theorem one_registration_per_pair_invariant:
  "(reachable s \<longrightarrow> length (registrations_of s student_id activity_id) \<le> 1) \<and>
   (one_registration_per_pair s \<longrightarrow>
      one_registration_per_pair (snd (list_request s)) \<and>
      one_registration_per_pair (snd (signup_request activity_name email s)) \<and>
      one_registration_per_pair (snd (unregister_request activity_name email s))) \<and>
   (is_registered s email activity_name \<longrightarrow>
      signup_request activity_name email s =
        (Inl (HTTPException 400 ''Student is already signed up''), s)) \<and>
   (registrations_of s student_id activity_id \<noteq> [] \<longrightarrow>
      \<not> one_registration_per_pair
          (working (add_registration student_id activity_id (SessionLocal s))))"
proof (intro conjI impI)
  assume "reachable s"
  then have "one_registration_per_pair s"
    using reachable_invariants by (simp add: store_ok_def)
  then show "length (registrations_of s student_id activity_id) \<le> 1" by (rule pair_count)
next
  assume "one_registration_per_pair s"
  then show "one_registration_per_pair (snd (list_request s))" by (simp add: list_request_store)
next
  assume "one_registration_per_pair s"
  then show "one_registration_per_pair (snd (signup_request activity_name email s))"
    by (rule signup_pairs)
next
  assume "one_registration_per_pair s"
  then show "one_registration_per_pair (snd (unregister_request activity_name email s))"
    by (rule unregister_pairs)
next
  assume "is_registered s email activity_name"
  then show "signup_request activity_name email s =
        (Inl (HTTPException 400 ''Student is already signed up''), s)"
    by (rule signup_registered)
next
  assume "registrations_of s student_id activity_id \<noteq> []"
  then show "\<not> one_registration_per_pair
          (working (add_registration student_id activity_id (SessionLocal s)))"
    by (rule insert_unchecked)
qed

lemma seed_store_reachable: "reachable seed_store"
proof (rule reachable.seeded)
  show "init_db empty_store = (Inr (), seed_store)"
    using seed_result by (simp add: seed_store_def prod_eq_iff)
qed

theorem one_registration_per_pair_invariant_witness:
  "reachable seed_store \<and> one_registration_per_pair seed_store \<and>
   is_registered seed_store ''michael@mergington.edu'' ''Chess Club'' \<and>
   registrations_of seed_store 1 1 \<noteq> [] \<and>
   length (registrations_of seed_store 1 1) \<le> 1 \<and>
   one_registration_per_pair (snd (list_request seed_store)) \<and>
   one_registration_per_pair (snd (signup_request ''Chess Club'' ''michael@mergington.edu'' seed_store)) \<and>
   one_registration_per_pair (snd (unregister_request ''Chess Club'' ''michael@mergington.edu'' seed_store)) \<and>
   signup_request ''Chess Club'' ''michael@mergington.edu'' seed_store =
     (Inl (HTTPException 400 ''Student is already signed up''), seed_store) \<and>
   \<not> one_registration_per_pair (working (add_registration 1 1 (SessionLocal seed_store)))"
proof -
  have h1: "reachable seed_store" by (rule seed_store_reachable)
  have h2: "one_registration_per_pair seed_store" by code_simp
  have h3: "is_registered seed_store ''michael@mergington.edu'' ''Chess Club''" by code_simp
  have h4: "registrations_of seed_store 1 1 \<noteq> []" by code_simp
  from one_registration_per_pair_invariant
         [of seed_store 1 1 "''Chess Club''" "''michael@mergington.edu''"] h1 h2 h3 h4
  show ?thesis by blast
qed

subsection \<open>Signing up twice\<close>

text \<open>
  Claim C2. When the student with the given email is registered for the activity, a signup
  for the same activity name and email fails with \<open>HTTPException 400\<close>, detail
  "Student is already signed up", and the store stays as it is. In a store that meets the
  schema constraints and the invariant on pairs, the participant list of the activity then
  holds the email exactly once.
\<close>

theorem duplicate_signup_conflict:
  assumes "is_registered s email activity_name"
  shows "signup_request activity_name email s =
           (Inl (HTTPException 400 ''Student is already signed up''), s) \<and>
         (store_ok s \<longrightarrow>
            (\<exists>ps. participants_of (snd (signup_request activity_name email s)) activity_name = Some ps \<and>
                  count_list ps email = 1))"
proof (intro conjI impI)
  show res: "signup_request activity_name email s =
           (Inl (HTTPException 400 ''Student is already signed up''), s)"
    using assms by (rule signup_registered)
  assume ok: "store_ok s"
  from assms obtain st a where st: "find (\<lambda>st. s_email st = email) (students s) = Some st"
    and a: "find (\<lambda>a. a_name a = activity_name) (activities s) = Some a"
    and r: "registrations_of s (s_id st) (a_id a) \<noteq> []"
    by (rule is_registeredD)
  from ok have "schema_ok s" "foreign_keys_ok s" "one_registration_per_pair s"
    by (simp_all add: store_ok_def)
  from participants_count [OF this(1,2) a st] obtain ps where
    ps: "participants_of s activity_name = Some ps"
      "count_list ps email = length (registrations_of s (s_id st) (a_id a))" by blast
  from pair_count [OF \<open>one_registration_per_pair s\<close>, of "s_id st" "a_id a"] r
  have "length (registrations_of s (s_id st) (a_id a)) = 1"
    by (cases "registrations_of s (s_id st) (a_id a)") auto
  with ps res show "\<exists>ps. participants_of (snd (signup_request activity_name email s)) activity_name = Some ps \<and>
                  count_list ps email = 1" by simp
qed

theorem duplicate_signup_conflict_witness:
  "is_registered seed_store ''michael@mergington.edu'' ''Chess Club'' \<and>
   store_ok seed_store \<and>
   signup_request ''Chess Club'' ''michael@mergington.edu'' seed_store =
     (Inl (HTTPException 400 ''Student is already signed up''), seed_store) \<and>
   (\<exists>ps. participants_of (snd (signup_request ''Chess Club'' ''michael@mergington.edu'' seed_store))
            ''Chess Club'' = Some ps \<and>
         count_list ps ''michael@mergington.edu'' = 1)"
proof -
  have h1: "is_registered seed_store ''michael@mergington.edu'' ''Chess Club''" by code_simp
  have h2: "store_ok seed_store" by code_simp
  from duplicate_signup_conflict [OF h1] h1 h2 show ?thesis by blast
qed

subsection \<open>Signup for an unknown activity\<close>

text \<open>
  Claim C3. In every store and for every email, seen or not, a signup whose activity name
  is the name of no activity fails with \<open>HTTPException 404\<close>, detail "Activity not found".
\<close>

theorem signup_unknown_activity_not_found:
  assumes "activity_name \<notin> set (map a_name (activities s))"
  shows "signup_request activity_name email s =
           (Inl (HTTPException 404 ''Activity not found''), s)"
proof -
  from assms have "find (\<lambda>a. a_name a = activity_name) (activities s) = None"
    by (auto simp: find_None_iff)
  then show ?thesis by (rule signup_no_activity)
qed

theorem signup_unknown_activity_not_found_witness:
  "''Knitting Circle'' \<notin> set (map a_name (activities seed_store)) \<and>
   ''michael@mergington.edu'' \<in> set (map s_email (students seed_store)) \<and>
   ''newkid@mergington.edu'' \<notin> set (map s_email (students seed_store)) \<and>
   signup_request ''Knitting Circle'' ''michael@mergington.edu'' seed_store =
     (Inl (HTTPException 404 ''Activity not found''), seed_store) \<and>
   signup_request ''Knitting Circle'' ''newkid@mergington.edu'' seed_store =
     (Inl (HTTPException 404 ''Activity not found''), seed_store)"
proof -
  have h: "''Knitting Circle'' \<notin> set (map a_name (activities seed_store))" by code_simp
  have seen: "''michael@mergington.edu'' \<in> set (map s_email (students seed_store))" by code_simp
  have unseen: "''newkid@mergington.edu'' \<notin> set (map s_email (students seed_store))" by code_simp
  from signup_unknown_activity_not_found [OF h, of "''michael@mergington.edu''"]
       signup_unknown_activity_not_found [OF h, of "''newkid@mergington.edu''"] h seen unseen
  show ?thesis by blast
qed

subsection \<open>Unregistering without a registration\<close>

text \<open>
  Claim C4, as stated: an unregister for an activity name and an email with no matching
  registration fails with status 400. In the seeded store Michael is a student and no
  activity is called "Knitting Circle": nothing links the two, and the request fails with
  status 404, the activity lookup coming before the lookup of the registration.
\<close>

theorem unregister_unmatched_counterexample:
  "''Knitting Circle'' \<notin> set (map a_name (activities seed_store)) \<and>
   \<not> is_registered seed_store ''michael@mergington.edu'' ''Knitting Circle'' \<and>
   unregister_request ''Knitting Circle'' ''michael@mergington.edu'' seed_store =
     (Inl (HTTPException 404 ''Activity not found''), seed_store)"
proof -
  have "''Knitting Circle'' \<notin> set (map a_name (activities seed_store))"
    by code_simp
  moreover have "\<not> is_registered seed_store ''michael@mergington.edu'' ''Knitting Circle''"
    by code_simp
  moreover have "fst (unregister_request ''Knitting Circle'' ''michael@mergington.edu'' seed_store) =
     Inl (HTTPException 404 ''Activity not found'')"
    by code_simp
  moreover have "snd (unregister_request ''Knitting Circle'' ''michael@mergington.edu'' seed_store) =
     seed_store"
    by code_simp
  ultimately show ?thesis by (simp add: prod_eq_iff)
qed

text \<open>
  Claim C4, amended. An unregister with no matching registration fails and leaves the store
  as it is, in each of the three ways there are: with an email of no student it fails with
  \<open>HTTPException 400\<close>, detail "Student not found", whatever the activity name is, known
  or not; with the email of a student and the name of no activity it fails with
  \<open>HTTPException 404\<close>, detail "Activity not found"; with a student and an activity that no
  registration links it fails with \<open>HTTPException 400\<close>, detail
  "Student is not signed up for this activity".
\<close>

theorem unregister_unmatched:
  "(email \<notin> set (map s_email (students s)) \<longrightarrow>
      unregister_request activity_name email s =
        (Inl (HTTPException 400 ''Student not found''), s)) \<and>
   (email \<in> set (map s_email (students s)) \<and>
    activity_name \<notin> set (map a_name (activities s)) \<longrightarrow>
      unregister_request activity_name email s =
        (Inl (HTTPException 404 ''Activity not found''), s)) \<and>
   (email \<in> set (map s_email (students s)) \<and>
    activity_name \<in> set (map a_name (activities s)) \<and>
    \<not> is_registered s email activity_name \<longrightarrow>
      unregister_request activity_name email s =
        (Inl (HTTPException 400 ''Student is not signed up for this activity''), s))"
proof (intro conjI impI)
  assume "email \<notin> set (map s_email (students s))"
  then have "find (\<lambda>st. s_email st = email) (students s) = None"
    by (auto simp: find_None_iff)
  then show "unregister_request activity_name email s =
        (Inl (HTTPException 400 ''Student not found''), s)"
    by (simp add: unregister_cases)
next
  assume h: "email \<in> set (map s_email (students s)) \<and>
    activity_name \<notin> set (map a_name (activities s))"
  then obtain st where "find (\<lambda>st. s_email st = email) (students s) = Some st"
    by (cases "find (\<lambda>st. s_email st = email) (students s)") (auto simp: find_None_iff)
  moreover from h have "find (\<lambda>a. a_name a = activity_name) (activities s) = None"
    by (auto simp: find_None_iff)
  ultimately show "unregister_request activity_name email s =
        (Inl (HTTPException 404 ''Activity not found''), s)"
    by (simp add: unregister_cases)
next
  assume h: "email \<in> set (map s_email (students s)) \<and>
    activity_name \<in> set (map a_name (activities s)) \<and>
    \<not> is_registered s email activity_name"
  then obtain st where st: "find (\<lambda>st. s_email st = email) (students s) = Some st"
    by (cases "find (\<lambda>st. s_email st = email) (students s)") (auto simp: find_None_iff)
  from h obtain a where a: "find (\<lambda>a. a_name a = activity_name) (activities s) = Some a"
    by (cases "find (\<lambda>a. a_name a = activity_name) (activities s)") (auto simp: find_None_iff)
  from h st a have "registrations_of s (s_id st) (a_id a) = []"
    by (simp add: is_registered_def)
  then have "find (\<lambda>r. r_student_id r = s_id st \<and> r_activity_id r = a_id a) (registrations s) = None"
    by (simp add: find_filter_None registrations_of_def)
  with st a show "unregister_request activity_name email s =
        (Inl (HTTPException 400 ''Student is not signed up for this activity''), s)"
    by (simp add: unregister_cases)
qed

theorem unregister_unmatched_witness:
  "''newkid@mergington.edu'' \<notin> set (map s_email (students seed_store)) \<and>
   ''Knitting Circle'' \<notin> set (map a_name (activities seed_store)) \<and>
   unregister_request ''Knitting Circle'' ''newkid@mergington.edu'' seed_store =
     (Inl (HTTPException 400 ''Student not found''), seed_store) \<and>
   ''michael@mergington.edu'' \<in> set (map s_email (students seed_store)) \<and>
   unregister_request ''Knitting Circle'' ''michael@mergington.edu'' seed_store =
     (Inl (HTTPException 404 ''Activity not found''), seed_store) \<and>
   ''Art Club'' \<in> set (map a_name (activities seed_store)) \<and>
   \<not> is_registered seed_store ''michael@mergington.edu'' ''Art Club'' \<and>
   unregister_request ''Art Club'' ''michael@mergington.edu'' seed_store =
     (Inl (HTTPException 400 ''Student is not signed up for this activity''), seed_store)"
proof -
  have h1: "''newkid@mergington.edu'' \<notin> set (map s_email (students seed_store))" by code_simp
  have h2: "''Knitting Circle'' \<notin> set (map a_name (activities seed_store))" by code_simp
  have h3: "''michael@mergington.edu'' \<in> set (map s_email (students seed_store))" by code_simp
  have h4: "''Art Club'' \<in> set (map a_name (activities seed_store))" by code_simp
  have h5: "\<not> is_registered seed_store ''michael@mergington.edu'' ''Art Club''" by code_simp
  from unregister_unmatched [of "''newkid@mergington.edu''" seed_store "''Knitting Circle''"]
       unregister_unmatched [of "''michael@mergington.edu''" seed_store "''Knitting Circle''"]
       unregister_unmatched [of "''michael@mergington.edu''" seed_store "''Art Club''"]
       h1 h2 h3 h4 h5
  show ?thesis by blast
qed

subsection \<open>Signup, then unregister\<close>

text \<open>
  Claim C5. In a store whose registrations all point to students and activities that
  exist, whenever a signup succeeds, the unregister for the same activity name and email
  that follows succeeds too, and the participant list that \<^verbatim>\<open>GET /activities\<close> reports for
  the activity is again the list it was before the signup. The whole answer of
  \<^verbatim>\<open>GET /activities\<close> and the table of registrations are what they were as well.
\<close>

theorem signup_unregister_round_trip:
  assumes fk: "foreign_keys_ok s"
    and up: "signup_request activity_name email s = (Inr message, s1)"
  shows "\<exists>s2 ps. unregister_request activity_name email s1 =
                 (Inr (''Unregistered '' @ email @ '' from '' @ activity_name), s2) \<and>
              participants_of s activity_name = Some ps \<and>
              participants_of s2 activity_name = Some ps \<and>
              fst (list_request s2) = fst (list_request s) \<and>
              registrations s2 = registrations s"
proof (cases rule: signup_outcome [of activity_name s email])
  case not_found
  with up show ?thesis by simp
next
  case (conflict a st)
  with up show ?thesis by simp
next
  case (known a st)
  let ?reg = "\<lparr>r_id = next_id (map r_id (registrations s)),
               r_student_id = s_id st, r_activity_id = a_id a\<rparr>"
  from known(4) up have s1: "s1 = s\<lparr>registrations := registrations s @ [?reg]\<rparr>" by simp
  have "find (\<lambda>r. r_student_id r = s_id st \<and> r_activity_id r = a_id a) (registrations s1) = Some ?reg"
    by (simp add: s1 find_append known(3))
  with known(1,2) have "unregister_request activity_name email s1 =
      (Inr (''Unregistered '' @ email @ '' from '' @ activity_name), s)"
    by (simp add: unregister_cases s1 filter_fresh_id)
  moreover from participants_of_listed [OF fk known(1)] obtain ps where
    "participants_of s activity_name = Some ps" ..
  ultimately show ?thesis by simp
next
  case (unseen a st)
  let ?reg = "\<lparr>r_id = next_id (map r_id (registrations s)),
               r_student_id = s_id st, r_activity_id = a_id a\<rparr>"
  from unseen(5) up have s1: "s1 = s\<lparr>students := students s @ [st],
      registrations := registrations s @ [?reg]\<rparr>" by simp
  have st: "find (\<lambda>st. s_email st = email) (students s1) = Some st"
    by (simp add: s1 find_append unseen(2) unseen(3))
  have "find (\<lambda>r. r_student_id r = s_id st \<and> r_activity_id r = a_id a) (registrations s1) = Some ?reg"
    by (simp add: s1 find_append unseen(4))
  with unseen(1) st have un: "unregister_request activity_name email s1 =
      (Inr (''Unregistered '' @ email @ '' from '' @ activity_name),
       s\<lparr>students := students s @ [st]\<rparr>)"
    by (simp add: unregister_cases s1 filter_fresh_id)
  have same: "fst (list_request (s\<lparr>students := students s @ [st]\<rparr>)) = fst (list_request s)"
    using fk by (rule list_request_more_students)
  from participants_of_listed [OF fk unseen(1)] obtain ps where
    "participants_of s activity_name = Some ps" ..
  with un same participants_of_cong [OF same, of activity_name] show ?thesis by simp
qed

theorem signup_unregister_round_trip_witness:
  "foreign_keys_ok seed_store \<and>
   signup_request ''Chess Club'' ''newkid@mergington.edu'' seed_store =
     (Inr ''Signed up newkid@mergington.edu for Chess Club'',
      snd (signup_request ''Chess Club'' ''newkid@mergington.edu'' seed_store)) \<and>
   participants_of seed_store ''Chess Club'' =
     Some [''michael@mergington.edu'', ''daniel@mergington.edu''] \<and>
   participants_of (snd (signup_request ''Chess Club'' ''newkid@mergington.edu'' seed_store))
     ''Chess Club'' =
     Some [''michael@mergington.edu'', ''daniel@mergington.edu'', ''newkid@mergington.edu''] \<and>
   (\<exists>s2 ps. unregister_request ''Chess Club'' ''newkid@mergington.edu''
            (snd (signup_request ''Chess Club'' ''newkid@mergington.edu'' seed_store)) =
            (Inr (''Unregistered '' @ ''newkid@mergington.edu'' @ '' from '' @ ''Chess Club''), s2) \<and>
         participants_of seed_store ''Chess Club'' = Some ps \<and>
         participants_of s2 ''Chess Club'' = Some ps \<and>
         fst (list_request s2) = fst (list_request seed_store) \<and>
         registrations s2 = registrations seed_store)"
proof -
  have h1: "foreign_keys_ok seed_store" by code_simp
  have "fst (signup_request ''Chess Club'' ''newkid@mergington.edu'' seed_store) =
     Inr ''Signed up newkid@mergington.edu for Chess Club''" by code_simp
  then have h2: "signup_request ''Chess Club'' ''newkid@mergington.edu'' seed_store =
     (Inr ''Signed up newkid@mergington.edu for Chess Club'',
      snd (signup_request ''Chess Club'' ''newkid@mergington.edu'' seed_store))"
    by (simp add: prod_eq_iff)
  have h3: "participants_of seed_store ''Chess Club'' =
     Some [''michael@mergington.edu'', ''daniel@mergington.edu'']" by code_simp
  have h4: "participants_of (snd (signup_request ''Chess Club'' ''newkid@mergington.edu'' seed_store))
     ''Chess Club'' =
     Some [''michael@mergington.edu'', ''daniel@mergington.edu'', ''newkid@mergington.edu'']"
    by code_simp
  from signup_unregister_round_trip [OF h1 h2] h1 h2 h3 h4 show ?thesis by blast
qed

subsection \<open>After a signup\<close>

text \<open>
  Claim C6. In a store that meets the schema constraints, right after a signup that
  succeeded, \<^verbatim>\<open>GET /activities\<close> lists the email exactly once among the participants of
  that activity.
\<close>

theorem signup_participant_once:
  assumes schema: "schema_ok s" and fk: "foreign_keys_ok s"
    and up: "signup_request activity_name email s = (Inr message, s')"
  shows "\<exists>ps. participants_of s' activity_name = Some ps \<and> count_list ps email = 1"
proof -
  from up have s': "s' = snd (signup_request activity_name email s)" by simp
  have schema': "schema_ok s'" unfolding s' using schema by (rule signup_schema)
  have fk': "foreign_keys_ok s'" unfolding s' using fk by (rule signup_foreign_keys)
  have "\<exists>st a. find (\<lambda>st. s_email st = email) (students s') = Some st \<and>
          find (\<lambda>a. a_name a = activity_name) (activities s') = Some a \<and>
          length (registrations_of s' (s_id st) (a_id a)) = 1"
  proof (cases rule: signup_outcome [of activity_name s email])
    case not_found
    with up show ?thesis by simp
  next
    case (conflict a st)
    with up show ?thesis by simp
  next
    case (known a st)
    from known(3) have "registrations_of s (s_id st) (a_id a) = []"
      by (simp add: find_filter_None registrations_of_def)
    with known up show ?thesis by (auto simp: registrations_of_def)
  next
    case (unseen a st)
    from unseen(4) have "registrations_of s (s_id st) (a_id a) = []"
      by (simp add: find_filter_None registrations_of_def)
    moreover have "find (\<lambda>st. s_email st = email) (students s @ [st]) = Some st"
      by (simp add: find_append unseen(2) unseen(3))
    ultimately show ?thesis using unseen up by (auto simp: registrations_of_def)
  qed
  then obtain st a where st: "find (\<lambda>st. s_email st = email) (students s') = Some st"
    and a: "find (\<lambda>a. a_name a = activity_name) (activities s') = Some a"
    and one: "length (registrations_of s' (s_id st) (a_id a)) = 1" by blast
  from participants_count [OF schema' fk' a st] one show ?thesis by simp
qed

theorem signup_participant_once_witness:
  "schema_ok seed_store \<and> foreign_keys_ok seed_store \<and>
   signup_request ''Chess Club'' ''newkid@mergington.edu'' seed_store =
     (Inr ''Signed up newkid@mergington.edu for Chess Club'',
      snd (signup_request ''Chess Club'' ''newkid@mergington.edu'' seed_store)) \<and>
   (\<exists>ps. participants_of (snd (signup_request ''Chess Club'' ''newkid@mergington.edu'' seed_store))
            ''Chess Club'' = Some ps \<and>
         count_list ps ''newkid@mergington.edu'' = 1)"
proof -
  have h1: "schema_ok seed_store" by code_simp
  have h2: "foreign_keys_ok seed_store" by code_simp
  have "fst (signup_request ''Chess Club'' ''newkid@mergington.edu'' seed_store) =
     Inr ''Signed up newkid@mergington.edu for Chess Club''" by code_simp
  then have h3: "signup_request ''Chess Club'' ''newkid@mergington.edu'' seed_store =
     (Inr ''Signed up newkid@mergington.edu for Chess Club'',
      snd (signup_request ''Chess Club'' ''newkid@mergington.edu'' seed_store))"
    by (simp add: prod_eq_iff)
  from signup_participant_once [OF h1 h2 h3] h1 h2 h3 show ?thesis by blast
qed

subsection \<open>No capacity check\<close>

text \<open>
  Claim C7. Signup never reads \<^verbatim>\<open>max_participants\<close>. Whenever the activity exists and the
  student is not registered for it, the signup succeeds and adds the registration, however
  many participants the activity has and whatever its maximum is. Overwriting every
  maximum in the store changes neither the outcome of a signup nor what it writes.
\<close>

theorem signup_ignores_capacity:
  assumes fk: "foreign_keys_ok s"
    and a: "find (\<lambda>a. a_name a = activity_name) (activities s) = Some activity"
    and free: "\<not> is_registered s email activity_name"
  shows "(\<exists>s' registration.
            signup_request activity_name email s =
              (Inr (''Signed up '' @ email @ '' for '' @ activity_name), s') \<and>
            registrations s' = registrations s @ [registration] \<and>
            r_activity_id registration = a_id activity \<and>
            is_registered s' email activity_name) \<and>
         signup_request activity_name email (set_capacity capacity s) =
           (fst (signup_request activity_name email s),
            set_capacity capacity (snd (signup_request activity_name email s)))"
proof (intro conjI)
  show "signup_request activity_name email (set_capacity capacity s) =
           (fst (signup_request activity_name email s),
            set_capacity capacity (snd (signup_request activity_name email s)))"
    by (rule signup_set_capacity)
  show "\<exists>s' registration.
            signup_request activity_name email s =
              (Inr (''Signed up '' @ email @ '' for '' @ activity_name), s') \<and>
            registrations s' = registrations s @ [registration] \<and>
            r_activity_id registration = a_id activity \<and>
            is_registered s' email activity_name"
  proof (cases "find (\<lambda>st. s_email st = email) (students s)")
    case None
    define st where "st = \<lparr>s_id = next_id (map s_id (students s)), s_email = email,
                s_name = None, s_grade_level = None\<rparr>"
    have "\<forall>r\<in>set (registrations s). r_student_id r \<in> set (map s_id (students s))"
      using foreign_keys_students [OF fk] by (simp add: list_all_iff)
    moreover have "s_id st \<notin> set (map s_id (students s))"
      using next_id_notin [of "map s_id (students s)"] by (simp add: st_def)
    ultimately have "\<forall>r\<in>set (registrations s). r_student_id r \<noteq> s_id st"
      by metis
    then have none: "find (\<lambda>r. r_student_id r = s_id st \<and> r_activity_id r = a_id activity)
        (registrations s) = None"
      by (auto simp: find_None_iff)
    have found: "find (\<lambda>st. s_email st = email) (students s @ [st]) = Some st"
      by (simp add: find_append None st_def)
    from signup_new_student [OF a None st_def] none a found show ?thesis
      by (simp add: is_registered_def registrations_of_def)
  next
    case (Some st)
    from free a Some have "registrations_of s (s_id st) (a_id activity) = []"
      by (simp add: is_registered_def)
    then have none: "find (\<lambda>r. r_student_id r = s_id st \<and> r_activity_id r = a_id activity)
        (registrations s) = None"
      by (simp add: find_filter_None registrations_of_def)
    from signup_known_student [OF a Some] none a Some show ?thesis
      by (simp add: is_registered_def registrations_of_def)
  qed
qed

theorem signup_ignores_capacity_witness:
  "foreign_keys_ok full_store \<and>
   find (\<lambda>a. a_name a = ''Math Club'') (activities full_store) = Some (hd (activities full_store)) \<and>
   \<not> is_registered full_store ''benjamin@mergington.edu'' ''Math Club'' \<and>
   a_max_participants (hd (activities full_store)) \<le>
     int (length (filter (\<lambda>r. r_activity_id r = a_id (hd (activities full_store)))
                    (registrations full_store))) \<and>
   (\<exists>s' registration.
      signup_request ''Math Club'' ''benjamin@mergington.edu'' full_store =
        (Inr (''Signed up '' @ ''benjamin@mergington.edu'' @ '' for '' @ ''Math Club''), s') \<and>
      registrations s' = registrations full_store @ [registration] \<and>
      r_activity_id registration = a_id (hd (activities full_store)) \<and>
      is_registered s' ''benjamin@mergington.edu'' ''Math Club'') \<and>
   signup_request ''Math Club'' ''benjamin@mergington.edu'' (set_capacity (\<lambda>a. 0) full_store) =
     (fst (signup_request ''Math Club'' ''benjamin@mergington.edu'' full_store),
      set_capacity (\<lambda>a. 0) (snd (signup_request ''Math Club'' ''benjamin@mergington.edu'' full_store)))"
proof -
  have h1: "foreign_keys_ok full_store" by code_simp
  have h2: "find (\<lambda>a. a_name a = ''Math Club'') (activities full_store) =
      Some (hd (activities full_store))" by (simp add: full_store_def)
  have h3: "\<not> is_registered full_store ''benjamin@mergington.edu'' ''Math Club''" by code_simp
  have h4: "a_max_participants (hd (activities full_store)) \<le>
     int (length (filter (\<lambda>r. r_activity_id r = a_id (hd (activities full_store)))
                    (registrations full_store)))" by (simp add: full_store_def)
  from signup_ignores_capacity [OF h1 h2 h3, of "\<lambda>a. 0"] h1 h2 h3 h4 show ?thesis by blast
qed

subsection \<open>Students created on first signup\<close>

text \<open>
  Claim C8. A signup that succeeds with an email of no student adds exactly one student
  row, with that email and neither name nor grade, and the row is in the store afterwards.
  A signup with the email of a student adds no student row, whatever its outcome.
\<close>

theorem signup_creates_student_lazily:
  "(email \<notin> set (map s_email (students s)) \<and>
    signup_request activity_name email s = (Inr message, s') \<longrightarrow>
      students s' = students s @
        [\<lparr>s_id = next_id (map s_id (students s)), s_email = email,
          s_name = None, s_grade_level = None\<rparr>]) \<and>
   (email \<in> set (map s_email (students s)) \<longrightarrow>
      students (snd (signup_request activity_name email s)) = students s)"
proof (intro conjI impI)
  assume h: "email \<notin> set (map s_email (students s)) \<and>
    signup_request activity_name email s = (Inr message, s')"
  then have none: "find (\<lambda>st. s_email st = email) (students s) = None"
    by (auto simp: find_None_iff)
  show "students s' = students s @
        [\<lparr>s_id = next_id (map s_id (students s)), s_email = email,
          s_name = None, s_grade_level = None\<rparr>]"
    using h none by (cases rule: signup_outcome [of activity_name s email]) auto
next
  assume "email \<in> set (map s_email (students s))"
  then have some: "find (\<lambda>st. s_email st = email) (students s) \<noteq> None"
    by (auto simp: find_None_iff)
  show "students (snd (signup_request activity_name email s)) = students s"
    using some by (cases rule: signup_outcome [of activity_name s email]) simp_all
qed

theorem signup_creates_student_lazily_witness:
  "''newkid@mergington.edu'' \<notin> set (map s_email (students seed_store)) \<and>
   fst (signup_request ''Chess Club'' ''newkid@mergington.edu'' seed_store) =
     Inr ''Signed up newkid@mergington.edu for Chess Club'' \<and>
   students (snd (signup_request ''Chess Club'' ''newkid@mergington.edu'' seed_store)) =
     students seed_store @
       [\<lparr>s_id = next_id (map s_id (students seed_store)), s_email = ''newkid@mergington.edu'',
         s_name = None, s_grade_level = None\<rparr>] \<and>
   ''michael@mergington.edu'' \<in> set (map s_email (students seed_store)) \<and>
   students (snd (signup_request ''Art Club'' ''michael@mergington.edu'' seed_store)) =
     students seed_store"
proof -
  have h1: "''newkid@mergington.edu'' \<notin> set (map s_email (students seed_store))" by code_simp
  have h2: "fst (signup_request ''Chess Club'' ''newkid@mergington.edu'' seed_store) =
     Inr ''Signed up newkid@mergington.edu for Chess Club''" by code_simp
  then have h3: "signup_request ''Chess Club'' ''newkid@mergington.edu'' seed_store =
     (Inr ''Signed up newkid@mergington.edu for Chess Club'',
      snd (signup_request ''Chess Club'' ''newkid@mergington.edu'' seed_store))"
    by (simp add: prod_eq_iff)
  have h4: "''michael@mergington.edu'' \<in> set (map s_email (students seed_store))" by code_simp
  from signup_creates_student_lazily [of "''newkid@mergington.edu''" seed_store "''Chess Club''"
         "''Signed up newkid@mergington.edu for Chess Club''"
         "snd (signup_request ''Chess Club'' ''newkid@mergington.edu'' seed_store)"]
       signup_creates_student_lazily [of "''michael@mergington.edu''" seed_store "''Art Club''"]
       h1 h2 h3 h4
  show ?thesis by blast
qed

subsection \<open>What signup and unregister leave alone\<close>

lemma unregister_students: "students (snd (unregister_request n e s)) = students s"
  using unregister_store [of n e s] by auto

text \<open>
  Claim C9. Signup and unregister change registrations only, but for the one student a
  signup may add: after either request the activities are the rows they were; after a
  signup the students are the rows they were, in place and unchanged, with at most one new
  row behind them, and the registrations are the old ones with at most one new row; after
  an unregister the students are the rows they were and the registrations are the old ones
  without the rows of at most one key. No student and no activity is ever deleted.
\<close>

theorem signup_unregister_frame:
  "activities (snd (signup_request activity_name email s)) = activities s \<and>
   (students (snd (signup_request activity_name email s)) = students s \<or>
    (\<exists>student. students (snd (signup_request activity_name email s)) = students s @ [student])) \<and>
   (registrations (snd (signup_request activity_name email s)) = registrations s \<or>
    (\<exists>registration. registrations (snd (signup_request activity_name email s)) =
        registrations s @ [registration])) \<and>
   activities (snd (unregister_request activity_name email s)) = activities s \<and>
   students (snd (unregister_request activity_name email s)) = students s \<and>
   (registrations (snd (unregister_request activity_name email s)) = registrations s \<or>
    (\<exists>registration :: Registration. registrations (snd (unregister_request activity_name email s)) =
        filter (\<lambda>r. r_id r \<noteq> r_id registration) (registrations s)))"
proof (intro conjI)
  show "activities (snd (signup_request activity_name email s)) = activities s"
    by (rule signup_activities)
  show "students (snd (signup_request activity_name email s)) = students s \<or>
    (\<exists>student. students (snd (signup_request activity_name email s)) = students s @ [student])"
    by (cases rule: signup_outcome [of activity_name s email]) simp_all
  show "registrations (snd (signup_request activity_name email s)) = registrations s \<or>
    (\<exists>registration. registrations (snd (signup_request activity_name email s)) =
        registrations s @ [registration])"
    by (cases rule: signup_outcome [of activity_name s email]) simp_all
  show "activities (snd (unregister_request activity_name email s)) = activities s"
    by (rule unregister_activities)
  show "students (snd (unregister_request activity_name email s)) = students s"
    by (rule unregister_students)
  show "registrations (snd (unregister_request activity_name email s)) = registrations s \<or>
    (\<exists>registration :: Registration. registrations (snd (unregister_request activity_name email s)) =
        filter (\<lambda>r. r_id r \<noteq> r_id registration) (registrations s))"
    using unregister_store [of activity_name email s] by auto
qed

subsection \<open>A failed signup persists nothing\<close>

text \<open>
  Claim C10. Whenever a signup request fails, the persisted store is what it was. When the
  email is new and the handler fails, the session the handler leaves behind does hold the
  student row flushed in the first step, its committed state is still the old store, and
  closing it persists nothing: the student row is gone.
\<close>

theorem failed_signup_persists_nothing:
  "(fst (signup_request activity_name email s) = Inl err \<longrightarrow>
      snd (signup_request activity_name email s) = s) \<and>
   (email \<notin> set (map s_email (students s)) \<and>
    fst (signup_for_activity activity_name email (SessionLocal s)) = Inl err \<longrightarrow>
      students (working (snd (signup_for_activity activity_name email (SessionLocal s)))) =
        students s @ [\<lparr>s_id = next_id (map s_id (students s)), s_email = email,
                        s_name = None, s_grade_level = None\<rparr>] \<and>
      committed (snd (signup_for_activity activity_name email (SessionLocal s))) = s \<and>
      snd (signup_request activity_name email s) = s)"
proof (intro conjI impI)
  assume "fst (signup_request activity_name email s) = Inl err"
  then show "snd (signup_request activity_name email s) = s"
    by (cases rule: signup_outcome [of activity_name s email]) simp_all
next
  assume h: "email \<notin> set (map s_email (students s)) \<and>
    fst (signup_for_activity activity_name email (SessionLocal s)) = Inl err"
  then have none': "find (\<lambda>st. s_email st = email) (students s) = None"
    by (auto simp: find_None_iff)
  have fl: "flush_student email None \<lparr>committed = s, working = s\<rparr> =
      Inr (\<lparr>s_id = next_id (map s_id (students s)), s_email = email,
             s_name = None, s_grade_level = None\<rparr>,
           \<lparr>committed = s, working = s\<lparr>students := students s @
             [\<lparr>s_id = next_id (map s_id (students s)), s_email = email,
               s_name = None, s_grade_level = None\<rparr>]\<rparr>\<rparr>)"
    using flush_student_unseen [of email "\<lparr>committed = s, working = s\<rparr>" None] none'
    by simp
  from h have err: "fst (signup_for_activity activity_name email (SessionLocal s)) = Inl err" by simp
  from err show "students (working (snd (signup_for_activity activity_name email (SessionLocal s)))) =
        students s @ [\<lparr>s_id = next_id (map s_id (students s)), s_email = email,
                        s_name = None, s_grade_level = None\<rparr>]"
    by (simp add: signup_for_activity_def none' fl SessionLocal_def split: option.splits)
  from err show "committed (snd (signup_for_activity activity_name email (SessionLocal s))) = s"
    by (simp add: signup_for_activity_def none' fl SessionLocal_def split: option.splits)
  from err have "fst (signup_request activity_name email s) = Inl err"
    by (simp add: signup_request_def get_db_def case_prod_beta)
  then show "snd (signup_request activity_name email s) = s"
    by (cases rule: signup_outcome [of activity_name s email]) simp_all
qed

theorem failed_signup_persists_nothing_witness:
  "fst (signup_request ''Knitting Circle'' ''newkid@mergington.edu'' seed_store) =
     Inl (HTTPException 404 ''Activity not found'') \<and>
   ''newkid@mergington.edu'' \<notin> set (map s_email (students seed_store)) \<and>
   fst (signup_for_activity ''Knitting Circle'' ''newkid@mergington.edu'' (SessionLocal seed_store)) =
     Inl (HTTPException 404 ''Activity not found'') \<and>
   students (working (snd (signup_for_activity ''Knitting Circle'' ''newkid@mergington.edu''
                             (SessionLocal seed_store)))) =
     students seed_store @
       [\<lparr>s_id = next_id (map s_id (students seed_store)), s_email = ''newkid@mergington.edu'',
         s_name = None, s_grade_level = None\<rparr>] \<and>
   committed (snd (signup_for_activity ''Knitting Circle'' ''newkid@mergington.edu''
                     (SessionLocal seed_store))) = seed_store \<and>
   snd (signup_request ''Knitting Circle'' ''newkid@mergington.edu'' seed_store) = seed_store"
proof -
  have h1: "fst (signup_request ''Knitting Circle'' ''newkid@mergington.edu'' seed_store) =
     Inl (HTTPException 404 ''Activity not found'')" by code_simp
  have h2: "''newkid@mergington.edu'' \<notin> set (map s_email (students seed_store))" by code_simp
  have h3: "fst (signup_for_activity ''Knitting Circle'' ''newkid@mergington.edu'' (SessionLocal seed_store)) =
     Inl (HTTPException 404 ''Activity not found'')" by code_simp
  from failed_signup_persists_nothing [of "''Knitting Circle''" "''newkid@mergington.edu''" seed_store
         "HTTPException 404 ''Activity not found''"] h1 h2 h3
  show ?thesis by blast
qed

end
